theory Spec2Isabelle
  imports Main
begin

section \<open>Severity levels (log.go, lines 14-59)\<close>

text \<open>
  \<^verbatim>\<open>type Level string\<close>: a level is any string; four of them are named.
\<close>

type_synonym Level = string

definition DebugLvl :: Level where
  "DebugLvl = ''DEBUG''"

definition InfoLvl :: Level where
  "InfoLvl = ''INFO''"

definition WarnLvl :: Level where
  "WarnLvl = ''WARN''"

definition ErrorLvl :: Level where
  "ErrorLvl = ''ERROR''"

text \<open>
  \<^verbatim>\<open>func (l Level) includes(other Level) bool\<close>: a switch on the threshold \<open>l\<close>,
  the cases tried in the order Info, Warn, Error, then the default.
\<close>

definition Level_includes :: "Level \<Rightarrow> Level \<Rightarrow> bool" where
  "Level_includes l other =
     (if l = InfoLvl then other \<noteq> DebugLvl
      else if l = WarnLvl then other \<noteq> DebugLvl \<and> other \<noteq> InfoLvl
      else if l = ErrorLvl then other \<noteq> DebugLvl \<and> other \<noteq> InfoLvl \<and> other \<noteq> WarnLvl
      else True)"

section \<open>Panics\<close>

text \<open>
  The run-time panics the code of log.go can raise by itself: a method called through a
  nil pointer or nil interface, and an index outside an array.
\<close>

datatype panic = NilDereference | IndexOutOfRange

definition and_then :: "panic + 'a \<Rightarrow> ('a \<Rightarrow> panic + 'b) \<Rightarrow> panic + 'b" where
  "and_then m f = (case m of Inl p \<Rightarrow> Inl p | Inr x \<Rightarrow> f x)"

section \<open>Header formatting (log.go, lines 314-360)\<close>

text \<open>
  Go's \<^verbatim>\<open>int\<close> is modelled as \<open>int\<close>; the conversion \<^verbatim>\<open>uint(i)\<close> of a 64-bit
  platform is written out as \<open>i mod 2 ^ 64\<close>. The loop of \<^verbatim>\<open>itoa\<close> fills the array
  \<^verbatim>\<open>var b [32]byte\<close> from its end; \<open>bp\<close> is the index of the last byte written.
  \<^verbatim>\<open>bp--\<close> below index 0 makes \<^verbatim>\<open>b[bp]\<close> an index out of range, which panics.
\<close>

function itoa_loop :: "nat \<Rightarrow> int \<Rightarrow> nat \<Rightarrow> string \<Rightarrow> panic + (nat \<times> string)" where
  "itoa_loop u wid bp b =
     (if u > 0 \<or> wid > 0 then
        (if bp = 0 then Inl IndexOutOfRange
         else itoa_loop (u div 10) (wid - 1) (bp - 1) (b[bp - 1 := char_of (48 + u mod 10)]))
      else Inr (bp, b))"
  by pat_completeness auto
termination
  by (relation "measure (\<lambda>(u, wid, bp, b). bp)") auto

declare itoa_loop.simps [simp del]

definition uint :: "int \<Rightarrow> nat" where
  "uint i = nat (i mod 2 ^ 64)"

definition itoa :: "string \<Rightarrow> int \<Rightarrow> int \<Rightarrow> panic + string" where
  "itoa buf i wid =
     (let u = uint i in
      if u = 0 \<and> wid \<le> 1 then Inr (buf @ ''0'')
      else and_then (itoa_loop u wid 32 (replicate 32 (CHR 0x00)))
             (\<lambda>(bp, b). Inr (buf @ drop bp b)))"

text \<open>
  \<^verbatim>\<open>time.Time\<close> as the six numbers \<^verbatim>\<open>now.Date()\<close> and \<^verbatim>\<open>now.Clock()\<close> give.
\<close>

record Time =
  year :: int
  month :: int
  day :: int
  hour :: int
  minute :: int
  second :: int

definition formatHeader :: "string \<Rightarrow> Time \<Rightarrow> string \<Rightarrow> int \<Rightarrow> Level \<Rightarrow> panic + string" where
  "formatHeader buf now file line lvl =
     and_then (itoa buf (year now) 4) (\<lambda>b.
     and_then (itoa (b @ ''-'') (month now) 2) (\<lambda>b.
     and_then (itoa (b @ ''-'') (day now) 2) (\<lambda>b.
     and_then (itoa (b @ ''T'') (hour now) 2) (\<lambda>b.
     and_then (itoa (b @ '':'') (minute now) 2) (\<lambda>b.
     and_then (itoa (b @ '':'') (second now) 2) (\<lambda>b.
     and_then (itoa (b @ ('' ['' @ lvl @ ''] '') @ file @ '':'') line (- 1)) (\<lambda>b.
     Inr (b @ '': ''))))))))"

section \<open>The collaborators of a Logger\<close>

text \<open>
  The sink \<^verbatim>\<open>out io.Writer\<close> is an interface value: nil, or a writer. Of a writer the
  code uses the error its \<^verbatim>\<open>Write\<close> returns (\<open>None\<close> is Go's nil error) and whether
  its dynamic type also implements \<^verbatim>\<open>io.Closer\<close>.
\<close>

record Writer =
  wname :: string
  is_Closer :: bool
  Write_err :: "string option"

text \<open>
  \<^verbatim>\<open>*raven.Client\<close>, the error-tracking client of the library raven-go, built by
  \<^verbatim>\<open>raven.NewClient(dsn, tags)\<close>.
\<close>

record Client =
  dsn :: string
  tags :: "(string \<times> string) list"

text \<open>
  \<^verbatim>\<open>lock *sync.Mutex\<close> is a pointer: nil, or an allocated mutex. Calls are modelled one
  at a time, so an allocated mutex is free when a method starts: \<^verbatim>\<open>Lock\<close> returns at once
  and \<^verbatim>\<open>Unlock\<close> pairs with it. Through a nil pointer both dereference nil.
\<close>

datatype Mutex = Mutex

definition Mutex_Lock :: "Mutex option \<Rightarrow> panic + unit" where
  "Mutex_Lock m = (case m of None \<Rightarrow> Inl NilDereference | Some _ \<Rightarrow> Inr ())"

definition Mutex_Unlock :: "Mutex option \<Rightarrow> panic + unit" where
  "Mutex_Unlock m = (case m of None \<Rightarrow> Inl NilDereference | Some _ \<Rightarrow> Inr ())"

text \<open>
  \<^verbatim>\<open>l.lock.Lock(); defer l.lock.Unlock(); body\<close>: the deferred \<^verbatim>\<open>Unlock\<close> runs after the
  body, also when the body panics.
\<close>

definition locked :: "Mutex option \<Rightarrow> (panic + 'a) \<Rightarrow> panic + 'a" where
  "locked m body =
     and_then (Mutex_Lock m) (\<lambda>_.
       case body of
         Inl p \<Rightarrow> Inl p
       | Inr r \<Rightarrow> and_then (Mutex_Unlock m) (\<lambda>_. Inr r))"

text \<open>
  What a call does to the world outside the Logger, in the order it happens: a
  \<^verbatim>\<open>Write\<close> of a line to a sink, a \<^verbatim>\<open>Close\<close> of a sink, a \<^verbatim>\<open>Write\<close> to
  \<^verbatim>\<open>os.Stderr\<close>, and a \<^verbatim>\<open>Close\<close> of a raven client. These are all the calls log.go
  makes on its collaborators.
\<close>

datatype event =
    SinkWrite Writer string
  | SinkClose Writer
  | StderrWrite string
  | SentryClose Client

type_synonym trace = "event list"

text \<open>Whether an event is a call on a raven client.\<close>

fun on_sentry :: "event \<Rightarrow> bool" where
  "on_sentry (SentryClose c) = True"
| "on_sentry (SinkWrite w s) = False"
| "on_sentry (SinkClose w) = False"
| "on_sentry (StderrWrite s) = False"

text \<open>
  What a call reads from its environment: \<^verbatim>\<open>time.Now()\<close> at the start of
  \<^verbatim>\<open>output\<close>, \<^verbatim>\<open>time.Now().String()\<close> when a write error is reported, and
  \<^verbatim>\<open>runtime.Caller(depth)\<close> (\<open>None\<close> when it reports \<^verbatim>\<open>ok = false\<close>).
\<close>

record env =
  Now :: Time
  Now_String :: string
  Caller :: "int \<Rightarrow> (string \<times> int) option"

section \<open>The Logger (log.go, lines 61-170)\<close>

record Logger =
  level :: Level
  out :: "Writer option"
  sentry :: "Client option"
  calldepth :: int
  buf :: string
  lock :: "Mutex option"

text \<open>Go's zero value \<^verbatim>\<open>Logger{}\<close>: every field nil, empty or 0.\<close>

definition zero_Logger :: Logger where
  "zero_Logger = \<lparr>level = [], out = None, sentry = None, calldepth = 0, buf = [], lock = None\<rparr>"

text \<open>
  \<^verbatim>\<open>New\<close>; \<open>NewClient\<close> stands for \<^verbatim>\<open>raven.NewClient\<close>, which returns a client or an
  error. The second component of the result is the error \<^verbatim>\<open>New\<close> returns.
\<close>

definition New ::
  "(string \<Rightarrow> (string \<times> string) list \<Rightarrow> string + Client) \<Rightarrow>
   Level \<Rightarrow> Writer option \<Rightarrow> string \<Rightarrow> (string \<times> string) list \<Rightarrow> Logger \<times> string option" where
  "New NewClient lvl w sentry_dsn sentryTags =
     (let (sentryClient, err) =
        (if sentry_dsn \<noteq> [] then
           (case NewClient sentry_dsn sentryTags of
              Inl e \<Rightarrow> (None, Some e)
            | Inr c \<Rightarrow> (Some c, None))
         else (None, None))
      in (\<lparr>level = lvl, out = w, sentry = sentryClient, calldepth = 0, buf = [],
           lock = Some Mutex\<rparr>, err))"

text \<open>
  \<^verbatim>\<open>LogToFile\<close>; \<open>OpenFile\<close> stands for \<^verbatim>\<open>os.OpenFile\<close> with the flags and mode of the
  source. When the file cannot be opened the result is \<^verbatim>\<open>Logger{}\<close> and the error.
\<close>

definition LogToFile ::
  "(string \<Rightarrow> string + Writer) \<Rightarrow> (string \<Rightarrow> (string \<times> string) list \<Rightarrow> string + Client) \<Rightarrow>
   Level \<Rightarrow> string \<Rightarrow> string \<Rightarrow> (string \<times> string) list \<Rightarrow> Logger \<times> string option" where
  "LogToFile OpenFile NewClient lvl path sentry_dsn sentryTags =
     (case OpenFile path of
        Inl err \<Rightarrow> (zero_Logger, Some err)
      | Inr f \<Rightarrow> New NewClient lvl (Some f) sentry_dsn sentryTags)"

text \<open>
  \<^verbatim>\<open>(*raven.Client).Close\<close> of raven-go closes the client's queue, a field read through
  the receiver: called on a nil \<^verbatim>\<open>*raven.Client\<close> it dereferences nil.
\<close>

definition raven_Close :: "Client option \<Rightarrow> trace \<Rightarrow> panic + trace" where
  "raven_Close c tr =
     (case c of None \<Rightarrow> Inl NilDereference | Some cl \<Rightarrow> Inr (tr @ [SentryClose cl]))"

text \<open>
  \<^verbatim>\<open>Close\<close>: \<^verbatim>\<open>l.sentry.Close()\<close>, then the sink's \<^verbatim>\<open>Close\<close> when the type assertion
  \<^verbatim>\<open>l.out.(io.Closer)\<close> holds (it fails, without a panic, on a nil interface).
\<close>

definition Close :: "Logger \<Rightarrow> trace \<Rightarrow> panic + trace" where
  "Close l tr =
     and_then (raven_Close (sentry l) tr) (\<lambda>tr1.
       case out l of
         None \<Rightarrow> Inr tr1
       | Some w \<Rightarrow> if is_Closer w then Inr (tr1 @ [SinkClose w]) else Inr tr1)"

definition GetLevel :: "Logger \<Rightarrow> panic + Level" where
  "GetLevel l = locked (lock l) (Inr (level l))"

definition SetLevel :: "Logger \<Rightarrow> Level \<Rightarrow> panic + Logger" where
  "SetLevel l lvl = locked (lock l) (Inr (l\<lparr>level := lvl\<rparr>))"

definition SetOutput :: "Logger \<Rightarrow> Writer option \<Rightarrow> panic + Logger" where
  "SetOutput l w = locked (lock l) (Inr (l\<lparr>out := w\<rparr>))"

definition SetCallDepth :: "Logger \<Rightarrow> int \<Rightarrow> panic + Logger" where
  "SetCallDepth l depth = locked (lock l) (Inr (l\<lparr>calldepth := depth\<rparr>))"

text \<open>
  \<^verbatim>\<open>SetSentry\<close>: the result is the Logger after the call, the error returned and the
  trace.
\<close>

definition SetSentry ::
  "(string \<Rightarrow> (string \<times> string) list \<Rightarrow> string + Client) \<Rightarrow>
   Logger \<Rightarrow> string \<Rightarrow> (string \<times> string) list \<Rightarrow> trace \<Rightarrow>
   panic + (Logger \<times> string option \<times> trace)" where
  "SetSentry NewClient l dsn_arg tags_arg tr =
     locked (lock l)
       (case NewClient dsn_arg tags_arg of
          Inl err \<Rightarrow> Inr (l, Some err, tr)
        | Inr sentryClient \<Rightarrow>
            and_then (if sentry l \<noteq> None then raven_Close (sentry l) tr else Inr tr) (\<lambda>tr1.
              Inr (l\<lparr>sentry := Some sentryClient\<rparr>, None, tr1)))"

section \<open>The output path (log.go, lines 300-312 and 362-382)\<close>

text \<open>
  \<open>caller_location\<close> is lines 368-372 of \<^verbatim>\<open>output\<close>: the file and line
  \<^verbatim>\<open>runtime.Caller\<close> gives, or \<^verbatim>\<open>"???"\<close> and 0 when it fails.
  \<open>Logger_output\<close> is \<^verbatim>\<open>func (l *Logger) output\<close>. It has a pointer receiver: it
  returns the Logger with the buffer it built, the error of the sink's \<^verbatim>\<open>Write\<close> and the
  trace. \<^verbatim>\<open>l.buf[:0]\<close> is the empty buffer. \<^verbatim>\<open>l.out.Write\<close> on a nil interface
  dereferences nil.
\<close>

definition caller_location :: "env \<Rightarrow> int \<Rightarrow> string \<times> int" where
  "caller_location e depth = (case Caller e depth of None \<Rightarrow> (''???'', 0) | Some fl \<Rightarrow> fl)"

definition Logger_output ::
  "Logger \<Rightarrow> env \<Rightarrow> int \<Rightarrow> string \<Rightarrow> trace \<Rightarrow> panic + (Logger \<times> string option \<times> trace)" where
  "Logger_output l e depth s tr =
     (let now = Now e in
      and_then (Mutex_Unlock (lock l)) (\<lambda>_.
        let (file, line) = caller_location e depth in
        and_then (Mutex_Lock (lock l)) (\<lambda>_.
          and_then (formatHeader [] now file line (level l)) (\<lambda>b1.
            let b2 = b1 @ s;
                b3 = (if length s > 0 \<and> s ! (length s - 1) \<noteq> CHR 0x0A then b2 @ [CHR 0x0A]
                      else b2)
            in case out l of
                 None \<Rightarrow> Inl NilDereference
               | Some w \<Rightarrow> Inr (l\<lparr>buf := b3\<rparr>, Write_err w, tr @ [SinkWrite w b3])))))"

text \<open>
  \<^verbatim>\<open>log\<close> and \<^verbatim>\<open>logf\<close> have value receivers: the Logger \<^verbatim>\<open>output\<close> changed is their
  own copy, dropped on return. The argument \<open>s\<close> is the rendered message,
  \<^verbatim>\<open>fmt.Sprint(msg...)\<close> for \<^verbatim>\<open>log\<close> and \<^verbatim>\<open>fmt.Sprintf(format, msg...)\<close> for \<^verbatim>\<open>logf\<close>.
\<close>

definition log :: "Logger \<Rightarrow> env \<Rightarrow> string \<Rightarrow> trace \<Rightarrow> panic + trace" where
  "log l e s tr =
     and_then (Logger_output l e (calldepth l + 2) s tr) (\<lambda>(l1, err, tr1).
       case err of
         None \<Rightarrow> Inr tr1
       | Some msg \<Rightarrow> Inr (tr1 @ [StderrWrite (Now_String e @ '' '' @ msg)]))"

definition logf :: "Logger \<Rightarrow> env \<Rightarrow> string \<Rightarrow> trace \<Rightarrow> panic + trace" where
  "logf l e s tr =
     and_then (Logger_output l e (calldepth l + 2) s tr) (\<lambda>(l1, err, tr1).
       case err of
         None \<Rightarrow> Inr tr1
       | Some msg \<Rightarrow> Inr (tr1 @ [StderrWrite (Now_String e @ '' '' @ msg)]))"

section \<open>The eight log methods (log.go, lines 172-298)\<close>

text \<open>
  Each has a value receiver, so the caller's Logger is as it was when the method
  returns; the result is the trace.
\<close>

definition Debugf :: "Logger \<Rightarrow> env \<Rightarrow> string \<Rightarrow> trace \<Rightarrow> panic + trace" where
  "Debugf l e s tr =
     locked (lock l)
       (if out l = None then Inr tr
        else if \<not> Level_includes (level l) DebugLvl then Inr tr
        else logf l e s tr)"

definition Debug :: "Logger \<Rightarrow> env \<Rightarrow> string \<Rightarrow> trace \<Rightarrow> panic + trace" where
  "Debug l e s tr =
     locked (lock l)
       (if out l = None then Inr tr
        else if \<not> Level_includes (level l) DebugLvl then Inr tr
        else log l e s tr)"

definition Infof :: "Logger \<Rightarrow> env \<Rightarrow> string \<Rightarrow> trace \<Rightarrow> panic + trace" where
  "Infof l e s tr =
     locked (lock l)
       (if out l = None then Inr tr
        else if \<not> Level_includes (level l) InfoLvl then Inr tr
        else logf l e s tr)"

definition Info :: "Logger \<Rightarrow> env \<Rightarrow> string \<Rightarrow> trace \<Rightarrow> panic + trace" where
  "Info l e s tr =
     locked (lock l)
       (if out l = None then Inr tr
        else if \<not> Level_includes (level l) InfoLvl then Inr tr
        else log l e s tr)"

definition Warnf :: "Logger \<Rightarrow> env \<Rightarrow> string \<Rightarrow> trace \<Rightarrow> panic + trace" where
  "Warnf l e s tr =
     locked (lock l)
       (if out l = None then Inr tr
        else if \<not> Level_includes (level l) WarnLvl then Inr tr
        else logf l e s tr)"

definition Warn :: "Logger \<Rightarrow> env \<Rightarrow> string \<Rightarrow> trace \<Rightarrow> panic + trace" where
  "Warn l e s tr =
     locked (lock l)
       (if out l = None then Inr tr
        else if \<not> Level_includes (level l) WarnLvl then Inr tr
        else log l e s tr)"

definition Errorf :: "Logger \<Rightarrow> env \<Rightarrow> string \<Rightarrow> trace \<Rightarrow> panic + trace" where
  "Errorf l e s tr =
     locked (lock l)
       (if out l = None then Inr tr
        else if \<not> Level_includes (level l) ErrorLvl then Inr tr
        else logf l e s tr)"

definition Error :: "Logger \<Rightarrow> env \<Rightarrow> string \<Rightarrow> trace \<Rightarrow> panic + trace" where
  "Error l e s tr =
     locked (lock l)
       (if out l = None then Inr tr
        else if \<not> Level_includes (level l) ErrorLvl then Inr tr
        else log l e s tr)"

text \<open>The eight methods by name, and the severity each one tests the threshold against.\<close>

datatype log_method = MDebugf | MDebug | MInfof | MInfo | MWarnf | MWarn | MErrorf | MError

fun call :: "log_method \<Rightarrow> Logger \<Rightarrow> env \<Rightarrow> string \<Rightarrow> trace \<Rightarrow> panic + trace" where
  "call MDebugf = Debugf"
| "call MDebug = Debug"
| "call MInfof = Infof"
| "call MInfo = Info"
| "call MWarnf = Warnf"
| "call MWarn = Warn"
| "call MErrorf = Errorf"
| "call MError = Error"

fun severity :: "log_method \<Rightarrow> Level" where
  "severity MDebugf = DebugLvl"
| "severity MDebug = DebugLvl"
| "severity MInfof = InfoLvl"
| "severity MInfo = InfoLvl"
| "severity MWarnf = WarnLvl"
| "severity MWarn = WarnLvl"
| "severity MErrorf = ErrorLvl"
| "severity MError = ErrorLvl"

section \<open>The formats of the specification\<close>

text \<open>
  The decimal digits of a number, most significant first, and the number zero-padded to
  a width: the two renderings the specification names for the fields of a header.
\<close>

fun decimal :: "nat \<Rightarrow> string" where
  "decimal n =
     (if n < 10 then [char_of (48 + n)]
      else decimal (n div 10) @ [char_of (48 + n mod 10)])"

declare decimal.simps [simp del]

definition zero_padded :: "nat \<Rightarrow> nat \<Rightarrow> string" where
  "zero_padded w n = replicate (w - length (decimal n)) (CHR ''0'') @ decimal n"

text \<open>
  The header of the specification, \<^verbatim>\<open>YYYY-MM-DDTHH:MM:SS [LEVEL] file:line: \<close>, for the
  numbers of a date, a clock and a line.
\<close>

definition header_layout ::
  "nat \<Rightarrow> nat \<Rightarrow> nat \<Rightarrow> nat \<Rightarrow> nat \<Rightarrow> nat \<Rightarrow> Level \<Rightarrow> string \<Rightarrow> nat \<Rightarrow> string" where
  "header_layout y mo d h mi sec lvl file line =
     zero_padded 4 y @ ''-'' @ zero_padded 2 mo @ ''-'' @ zero_padded 2 d @ ''T'' @
     zero_padded 2 h @ '':'' @ zero_padded 2 mi @ '':'' @ zero_padded 2 sec @
     '' ['' @ lvl @ ''] '' @ file @ '':'' @ decimal line @ '': ''"

text \<open>
  The exclusion table of the threshold filter: the levels a threshold keeps out. A
  threshold that is none of INFO, WARN and ERROR keeps nothing out.
\<close>

definition excluded :: "Level \<Rightarrow> Level list" where
  "excluded l =
     (if l = InfoLvl then [DebugLvl]
      else if l = WarnLvl then [DebugLvl, InfoLvl]
      else if l = ErrorLvl then [DebugLvl, InfoLvl, WarnLvl]
      else [])"


text \<open>The bytes the loop of \<^verbatim>\<open>itoa\<close> writes, in the order they end up in the array.\<close>

function loop_bytes :: "nat \<Rightarrow> int \<Rightarrow> string" where
  "loop_bytes u wid =
     (if u > 0 \<or> wid > 0 then loop_bytes (u div 10) (wid - 1) @ [char_of (48 + u mod 10)]
      else [])"
  by pat_completeness auto
termination
  by (relation "measure (\<lambda>(u, wid). u + nat wid)") auto

declare loop_bytes.simps [simp del]

section \<open>Example inputs\<close>

definition stdout_writer :: Writer where
  "stdout_writer = \<lparr>wname = ''stdout'', is_Closer = False, Write_err = None\<rparr>"

definition log_file :: Writer where
  "log_file = \<lparr>wname = ''app.log'', is_Closer = True, Write_err = None\<rparr>"

definition full_disk :: Writer where
  "full_disk = \<lparr>wname = ''app.log'', is_Closer = True, Write_err = Some ''no space left on device''\<rparr>"

definition example_client :: Client where
  "example_client = \<lparr>dsn = ''https://key@sentry.example/1'', tags = [(''version'', ''1.0'')]\<rparr>"

definition other_client :: Client where
  "other_client = \<lparr>dsn = ''https://key@sentry.example/2'', tags = []\<rparr>"

text \<open>A \<^verbatim>\<open>raven.NewClient\<close> that accepts every endpoint, and one that refuses every endpoint.\<close>

definition accepting_NewClient :: "string \<Rightarrow> (string \<times> string) list \<Rightarrow> string + Client" where
  "accepting_NewClient d t = Inr \<lparr>dsn = d, tags = t\<rparr>"

definition refusing_NewClient :: "string \<Rightarrow> (string \<times> string) list \<Rightarrow> string + Client" where
  "refusing_NewClient d t = Inl ''raven: dsn missing public key and/or password''"

text \<open>
  An environment at 2024-03-05T07:08:09 in which the frame two above \<^verbatim>\<open>output\<close> is
  line 10 of main.go and no other frame resolves.
\<close>

definition example_env :: env where
  "example_env =
     \<lparr>Now = \<lparr>year = 2024, month = 3, day = 5, hour = 7, minute = 8, second = 9\<rparr>,
      Now_String = ''2024-03-05 07:08:09 +0000 UTC'',
      Caller = (\<lambda>d. if d = 2 then Some (''main.go'', 10) else None)\<rparr>"

text \<open>A Logger as \<^verbatim>\<open>New\<close> builds it, with threshold DEBUG, a sink and a raven client.\<close>

definition example_logger :: Logger where
  "example_logger =
     \<lparr>level = DebugLvl, out = Some stdout_writer, sentry = Some example_client, calldepth = 0,
      buf = [], lock = Some Mutex\<rparr>"

text \<open>The same Logger used through five wrappers, so that no frame resolves.\<close>

definition wrapped_logger :: Logger where
  "wrapped_logger = example_logger\<lparr>calldepth := 5\<rparr>"

text \<open>A Logger with threshold INFO whose sink is a file on a full disk, and no raven client.\<close>

definition failing_logger :: Logger where
  "failing_logger =
     \<lparr>level = InfoLvl, out = Some full_disk, sentry = None, calldepth = 0, buf = [],
      lock = Some Mutex\<rparr>"

section \<open>The threshold filter\<close>

lemmas Lvl_defs = DebugLvl_def InfoLvl_def WarnLvl_def ErrorLvl_def

text \<open>
  Claim C2, as the code has it. \<^verbatim>\<open>includes\<close> follows the exclusion table for every
  threshold and every entry level: INFO keeps out DEBUG; WARN keeps out DEBUG and INFO;
  ERROR keeps out DEBUG, INFO and WARN, and admits every other level, so of the four
  named levels it admits only ERROR; DEBUG and every unnamed threshold keep nothing out.
\<close>

theorem Level_includes_exclusion_table:
  "Level_includes l e = (e \<notin> set (excluded l))
   \<and> excluded DebugLvl = [] \<and> excluded InfoLvl = [DebugLvl]
   \<and> excluded WarnLvl = [DebugLvl, InfoLvl] \<and> excluded ErrorLvl = [DebugLvl, InfoLvl, WarnLvl]
   \<and> (excluded l = [] \<or> l = InfoLvl \<or> l = WarnLvl \<or> l = ErrorLvl)
   \<and> Level_includes ErrorLvl ErrorLvl \<and> \<not> Level_includes ErrorLvl WarnLvl
   \<and> \<not> Level_includes ErrorLvl InfoLvl \<and> \<not> Level_includes ErrorLvl DebugLvl"
  by (simp add: Level_includes_def excluded_def Lvl_defs)

text \<open>
  Claim C2 as stated says that the threshold ERROR admits only ERROR. It also admits
  an entry level that is none of the four named ones.
\<close>

theorem Level_includes_Error_admits_unnamed:
  "Level_includes ErrorLvl ''TRACE'' \<and> ''TRACE'' \<noteq> ErrorLvl"
  by (simp add: Level_includes_def Lvl_defs)

section \<open>Properties of the header formatter\<close>

lemma char_of_48: "char_of (48 :: nat) = CHR ''0''"
  by code_simp

lemma decimal_0: "decimal 0 = ''0''"
  by (subst decimal.simps) (simp add: char_of_48)

lemma length_decimal_pos: "0 < length (decimal n)"
  by (subst decimal.simps) simp

lemma zero_padded_0: "zero_padded 0 n = decimal n"
  by (simp add: zero_padded_def)

lemma loop_bytes_zero: "loop_bytes 0 wid = replicate (nat wid) (CHR ''0'')"
proof (induction "nat wid" arbitrary: wid)
  case 0
  then show ?case by (simp add: loop_bytes.simps)
next
  case (Suc k)
  then have "k = nat (wid - 1)" and "wid > 0" by auto
  with Suc.hyps(1) [of "wid - 1"] have "loop_bytes 0 (wid - 1) = replicate k (CHR ''0'')"
    by simp
  with \<open>wid > 0\<close> Suc.hyps(2) [symmetric] show ?case
    by (subst loop_bytes.simps) (simp add: char_of_48 replicate_append_same)
qed

lemma loop_bytes_pos: "0 < u \<Longrightarrow> loop_bytes u wid = zero_padded (nat wid) u"
proof (induction u arbitrary: wid rule: decimal.induct)
  case (1 n)
  show ?case
  proof (cases "n < 10")
    case True
    then have "n div 10 = 0" by simp
    moreover have "decimal n = [char_of (48 + n)]"
      using True by (subst decimal.simps) simp
    moreover have "nat (wid - 1) = nat wid - 1" by simp
    ultimately show ?thesis
      using "1.prems" True
      by (subst loop_bytes.simps) (simp add: loop_bytes_zero zero_padded_def)
  next
    case False
    then have pos: "0 < n div 10" by simp
    have dec: "decimal n = decimal (n div 10) @ [char_of (48 + n mod 10)]"
      using False by (subst decimal.simps) simp
    have "loop_bytes (n div 10) (wid - 1) = zero_padded (nat (wid - 1)) (n div 10)"
      using "1.IH" [OF False pos] .
    moreover have "nat (wid - 1) - length (decimal (n div 10)) = nat wid - length (decimal n)"
      using dec by simp
    ultimately show ?thesis
      using "1.prems" dec
      by (subst loop_bytes.simps) (simp add: zero_padded_def)
  qed
qed

lemma length_decimal_le: "n < 10 ^ k \<Longrightarrow> 0 < k \<Longrightarrow> length (decimal n) \<le> k"
proof (induction n arbitrary: k rule: decimal.induct)
  case (1 n)
  show ?case
  proof (cases "n < 10")
    case True
    then show ?thesis using "1.prems" by (subst decimal.simps) simp
  next
    case False
    with "1.prems" obtain j where k: "k = Suc j" and j: "0 < j"
      by (cases k; cases "k - 1") auto
    have "n div 10 < 10 ^ j"
      using "1.prems"(1) k by (simp add: less_mult_imp_div_less mult.commute)
    then have "length (decimal (n div 10)) \<le> j"
      using "1.IH" [OF False] j by simp
    then show ?thesis
      using False k by (subst decimal.simps) simp
  qed
qed

lemma length_loop_bytes:
  "length (loop_bytes u wid) = (if 0 < u then max (nat wid) (length (decimal u)) else nat wid)"
  by (simp add: loop_bytes_zero loop_bytes_pos zero_padded_def max_def)

lemma drop_update_same: "n < length xs \<Longrightarrow> drop n (xs[n := x]) = x # drop (Suc n) xs"
  using Cons_nth_drop_Suc [of n "xs[n := x]"] by simp

text \<open>
  The loop invariant of \<^verbatim>\<open>itoa\<close>: when the bytes still to be written fit below \<open>bp\<close>,
  the loop ends without a panic and the array holds them from the returned index on.
\<close>

lemma itoa_loop_bytes:
  "length (loop_bytes u wid) \<le> bp \<Longrightarrow> bp \<le> length b \<Longrightarrow>
   \<exists>b'. itoa_loop u wid bp b = Inr (bp - length (loop_bytes u wid), b')
      \<and> drop (bp - length (loop_bytes u wid)) b' = loop_bytes u wid @ drop bp b
      \<and> length b' = length b"
proof (induction u wid bp b rule: itoa_loop.induct)
  case (1 u wid bp b)
  show ?case
  proof (cases "u > 0 \<or> wid > 0")
    case False
    then show ?thesis
      by (simp add: itoa_loop.simps loop_bytes.simps)
  next
    case True
    let ?c = "char_of (48 + u mod 10) :: char"
    let ?r = "loop_bytes (u div 10) (wid - 1)"
    have lb: "loop_bytes u wid = ?r @ [?c]"
      using True by (subst loop_bytes.simps) simp
    with "1.prems" have bp: "bp \<noteq> 0" and len: "length ?r \<le> bp - 1" by auto
    have "bp - 1 \<le> length (b[bp - 1 := ?c])" using "1.prems" by simp
    from "1.IH" [OF True bp len this]
    obtain b' where
      run: "itoa_loop (u div 10) (wid - 1) (bp - 1) (b[bp - 1 := ?c]) = Inr (bp - 1 - length ?r, b')"
      and dr: "drop (bp - 1 - length ?r) b' = ?r @ drop (bp - 1) (b[bp - 1 := ?c])"
      and ln: "length b' = length b"
      by auto
    have "drop (bp - 1) (b[bp - 1 := ?c]) = ?c # drop bp b"
      using bp "1.prems"(2) by (simp add: drop_update_same)
    with run dr ln lb True bp show ?thesis
      by (subst itoa_loop.simps) simp
  qed
qed

lemma itoa_body:
  assumes u: "u < 10 ^ 20" and wid: "wid \<le> 32"
  shows "(if u = 0 \<and> wid \<le> 1 then Inr (pre @ ''0'')
          else and_then (itoa_loop u wid 32 (replicate 32 (CHR 0x00)))
                 (\<lambda>(bp, b). Inr (pre @ drop bp b)))
         = Inr (pre @ zero_padded (nat wid) u)"
proof (cases "u = 0 \<and> wid \<le> 1")
  case True
  then have "nat wid - Suc 0 = 0" by auto
  then have "zero_padded (nat wid) 0 = ''0''"
    by (simp add: zero_padded_def decimal_0)
  with True show ?thesis by simp
next
  case False
  have "length (decimal u) \<le> 20"
    using u by (rule length_decimal_le) simp
  moreover have "nat wid \<le> 32"
    using wid by (simp add: nat_le_iff)
  ultimately have len: "length (loop_bytes u wid) \<le> 32"
    by (simp add: length_loop_bytes)
  have lb: "loop_bytes u wid = zero_padded (nat wid) u"
  proof (cases "0 < u")
    case True
    then show ?thesis by (rule loop_bytes_pos)
  next
    case u0: False
    with False have "1 < wid" by auto
    then obtain k where k: "nat wid = Suc k" by (cases "nat wid") auto
    with u0 show ?thesis
      by (simp add: loop_bytes_zero zero_padded_def decimal_0 replicate_append_same)
  qed
  from itoa_loop_bytes [of u wid 32 "replicate 32 (CHR 0x00)"] len
  obtain b' where
    run: "itoa_loop u wid 32 (replicate 32 (CHR 0x00)) = Inr (32 - length (loop_bytes u wid), b')"
    and dr: "drop (32 - length (loop_bytes u wid)) b' = loop_bytes u wid"
    by auto
  show ?thesis
    unfolding if_not_P [OF False] run and_then_def
    by (simp add: dr) (simp add: lb)
qed

lemma uint_bound: "uint i < 10 ^ 20"
proof -
  have "nat (i mod 2 ^ 64) < 2 ^ 64" by (simp add: nat_less_iff)
  also have "(2::nat) ^ 64 < 10 ^ 20" by simp
  finally show ?thesis by (simp add: uint_def)
qed


text \<open>
  \<^verbatim>\<open>itoa\<close> at a width of at most 32 never panics: it appends the decimal digits of
  \<^verbatim>\<open>uint(i)\<close>, zero-padded to the width.
\<close>

lemma itoa_zero_padded:
  "wid \<le> 32 \<Longrightarrow> itoa pre i wid = Inr (pre @ zero_padded (nat wid) (uint i))"
  unfolding itoa_def Let_def by (rule itoa_body [OF uint_bound])

text \<open>
  \<^verbatim>\<open>formatHeader\<close> never panics. Every number goes through \<^verbatim>\<open>uint\<close>, so it is rendered
  by its value when it is not negative.
\<close>

lemma formatHeader_uint:
  "formatHeader pre now file line lvl =
     Inr (pre @ header_layout (uint (year now)) (uint (month now)) (uint (day now))
                  (uint (hour now)) (uint (minute now)) (uint (second now)) lvl file (uint line))"
  by (simp add: formatHeader_def itoa_zero_padded and_then_def header_layout_def zero_padded_0)

text \<open>
  \<^verbatim>\<open>formatHeader\<close> returns for every instant, file, line and level, negative numbers
  included: the array of 32 bytes in \<^verbatim>\<open>itoa\<close> is never overrun.
\<close>

theorem formatHeader_never_panics:
  "\<exists>h. formatHeader pre now file line lvl = Inr (pre @ h)"
  by (simp add: formatHeader_uint)




section \<open>Properties of the output path\<close>

lemma locked_Some: "m \<noteq> None \<Longrightarrow> locked m body = body"
  by (cases body) (auto simp: locked_def Mutex_Lock_def Mutex_Unlock_def and_then_def)

lemma locked_None: "locked None body = Inl NilDereference"
  by (simp add: locked_def Mutex_Lock_def and_then_def)

text \<open>Every Logger \<^verbatim>\<open>New\<close> builds has its mutex, whatever \<^verbatim>\<open>raven.NewClient\<close> answers.\<close>

lemma New_allocates_mutex: "lock (fst (New NewClient lvl w d t)) = Some Mutex"
  by (simp add: New_def split: sum.splits)

lemma logf_eq_log: "logf l e s tr = log l e s tr"
  by (simp add: logf_def log_def)

lemma output_run:
  assumes "lock l \<noteq> None" and "out l = Some w"
  shows "\<exists>hdr. formatHeader [] (Now e) (fst (caller_location e depth))
                 (snd (caller_location e depth)) (level l) = Inr hdr
     \<and> Logger_output l e depth s tr =
         Inr (l\<lparr>buf := hdr @ s @ (if s \<noteq> [] \<and> last s \<noteq> CHR 0x0A then [CHR 0x0A] else [])\<rparr>,
              Write_err w,
              tr @ [SinkWrite w (hdr @ s @ (if s \<noteq> [] \<and> last s \<noteq> CHR 0x0A then [CHR 0x0A] else []))])"
proof -
  obtain hdr where hdr: "formatHeader [] (Now e) (fst (caller_location e depth))
                 (snd (caller_location e depth)) (level l) = Inr hdr"
    by (simp add: formatHeader_uint)
  have nl: "(length s > 0 \<and> s ! (length s - 1) \<noteq> CHR 0x0A) = (s \<noteq> [] \<and> last s \<noteq> CHR 0x0A)"
    by (cases "s = []") (simp_all add: last_conv_nth)
  from assms hdr show ?thesis
    unfolding Logger_output_def nl
    by (auto simp: Mutex_Lock_def Mutex_Unlock_def and_then_def Let_def split: prod.splits)
qed

lemma log_run:
  assumes "lock l \<noteq> None" and "out l = Some w"
  shows "\<exists>hdr. formatHeader [] (Now e) (fst (caller_location e (calldepth l + 2)))
                 (snd (caller_location e (calldepth l + 2))) (level l) = Inr hdr
     \<and> log l e s tr =
         Inr (tr @ [SinkWrite w (hdr @ s @ (if s \<noteq> [] \<and> last s \<noteq> CHR 0x0A then [CHR 0x0A] else []))]
                 @ (case Write_err w of None \<Rightarrow> []
                    | Some msg \<Rightarrow> [StderrWrite (Now_String e @ '' '' @ msg)]))"
proof -
  from output_run [OF assms, of e "calldepth l + 2" s tr]
  obtain hdr where "formatHeader [] (Now e) (fst (caller_location e (calldepth l + 2)))
                 (snd (caller_location e (calldepth l + 2))) (level l) = Inr hdr"
    and "Logger_output l e (calldepth l + 2) s tr =
         Inr (l\<lparr>buf := hdr @ s @ (if s \<noteq> [] \<and> last s \<noteq> CHR 0x0A then [CHR 0x0A] else [])\<rparr>,
              Write_err w,
              tr @ [SinkWrite w (hdr @ s @ (if s \<noteq> [] \<and> last s \<noteq> CHR 0x0A then [CHR 0x0A] else []))])"
    by blast
  then show ?thesis
    by (cases "Write_err w") (simp_all add: log_def and_then_def)
qed

lemma call_admitted:
  assumes "lock l \<noteq> None" and "out l = Some w" and "Level_includes (level l) (severity m)"
  shows "call m l e s tr = log l e s tr"
  using assms
  by (cases m)
     (simp_all add: Debugf_def Debug_def Infof_def Info_def Warnf_def Warn_def Errorf_def
        Error_def locked_Some logf_eq_log)

lemma call_no_sink:
  assumes "lock l \<noteq> None" and "out l = None"
  shows "call m l e s tr = Inr tr"
  using assms
  by (cases m)
     (simp_all add: Debugf_def Debug_def Infof_def Info_def Warnf_def Warn_def Errorf_def
        Error_def locked_Some)

lemma call_nil_lock:
  assumes "lock l = None"
  shows "call m l e s tr = Inl NilDereference"
  using assms
  by (cases m)
     (simp_all add: Debugf_def Debug_def Infof_def Info_def Warnf_def Warn_def Errorf_def
        Error_def locked_None)

lemma call_not_admitted:
  assumes "lock l \<noteq> None" and "\<not> Level_includes (level l) (severity m)"
  shows "call m l e s tr = Inr tr"
  using assms
  by (cases m)
     (simp_all add: Debugf_def Debug_def Infof_def Info_def Warnf_def Warn_def Errorf_def
        Error_def locked_Some)

text \<open>
  A log call writes to the sink exactly when the mutex is allocated, the sink is set and
  the threshold admits the method's severity.
\<close>

lemma call_reaches_sink_iff:
  "(\<exists>w line rest. call m l e s tr = Inr (tr @ SinkWrite w line # rest))
   \<longleftrightarrow> lock l \<noteq> None \<and> out l \<noteq> None \<and> Level_includes (level l) (severity m)"
proof
  assume "\<exists>w line rest. call m l e s tr = Inr (tr @ SinkWrite w line # rest)"
  then obtain w line rest where c: "call m l e s tr = Inr (tr @ SinkWrite w line # rest)"
    by blast
  have "lock l \<noteq> None"
    using c call_nil_lock [of l m e s tr] by auto
  moreover have "out l \<noteq> None"
    using c call_no_sink [OF \<open>lock l \<noteq> None\<close>, of m e s tr] by auto
  moreover have "Level_includes (level l) (severity m)"
    using c call_not_admitted [OF \<open>lock l \<noteq> None\<close>, of m e s tr] by auto
  ultimately show "lock l \<noteq> None \<and> out l \<noteq> None \<and> Level_includes (level l) (severity m)"
    by simp
next
  assume a: "lock l \<noteq> None \<and> out l \<noteq> None \<and> Level_includes (level l) (severity m)"
  then obtain w where w: "out l = Some w" by auto
  from log_run [of l w e s tr] a w call_admitted [of l w m e s tr]
  show "\<exists>w line rest. call m l e s tr = Inr (tr @ SinkWrite w line # rest)"
    by auto
qed

lemma example_header:
  "formatHeader [] (Now example_env) ''main.go'' 10 DebugLvl =
     Inr ''2024-03-05T07:08:09 [DEBUG] main.go:10: ''"
  by code_simp

lemma example_caller: "caller_location example_env 2 = (''main.go'', 10)"
  by (simp add: caller_location_def example_env_def)

section \<open>The trailing newline\<close>

text \<open>
  Claim C3, as the code has it. For every message that is not empty, the line
  \<^verbatim>\<open>output\<close> writes to the sink is the header, then the message, then one newline when
  the message does not end in a newline and nothing when it does.
\<close>

theorem output_trailing_newline:
  assumes "lock l \<noteq> None" and "out l = Some w" and "s \<noteq> []"
  shows "\<exists>hdr. formatHeader [] (Now e) (fst (caller_location e depth))
                 (snd (caller_location e depth)) (level l) = Inr hdr
     \<and> Logger_output l e depth s tr =
         Inr (l\<lparr>buf := hdr @ s @ (if last s = CHR 0x0A then [] else [CHR 0x0A])\<rparr>,
              Write_err w,
              tr @ [SinkWrite w (hdr @ s @ (if last s = CHR 0x0A then [] else [CHR 0x0A]))])"
  using output_run [OF assms(1,2), of e depth s tr] assms(3) by auto

text \<open>The messages \<^verbatim>\<open>started\<close> and \<^verbatim>\<open>started\n\<close> are written as the same line.\<close>

theorem output_trailing_newline_witness:
  "lock example_logger \<noteq> None \<and> out example_logger = Some stdout_writer
   \<and> Logger_output example_logger example_env 2 ''started'' [] =
       Inr (example_logger\<lparr>buf := ''2024-03-05T07:08:09 [DEBUG] main.go:10: started'' @ [CHR 0x0A]\<rparr>,
            None,
            [SinkWrite stdout_writer (''2024-03-05T07:08:09 [DEBUG] main.go:10: started'' @ [CHR 0x0A])])
   \<and> Logger_output example_logger example_env 2 (''started'' @ [CHR 0x0A]) [] =
       Inr (example_logger\<lparr>buf := ''2024-03-05T07:08:09 [DEBUG] main.go:10: started'' @ [CHR 0x0A]\<rparr>,
            None,
            [SinkWrite stdout_writer (''2024-03-05T07:08:09 [DEBUG] main.go:10: started'' @ [CHR 0x0A])])"
proof -
  have l: "lock example_logger \<noteq> None" and o: "out example_logger = Some stdout_writer"
    and lv: "level example_logger = DebugLvl"
    by (simp_all add: example_logger_def)
  have w: "Write_err stdout_writer = None" by (simp add: stdout_writer_def)
  from output_trailing_newline [OF l o, of "''started''" example_env 2 "[]"]
       output_trailing_newline [OF l o, of "''started'' @ [CHR 0x0A]" example_env 2 "[]"]
  show ?thesis
    by (simp add: l o lv w example_caller example_header)
qed

text \<open>
  Claim C3 as stated gives every message that does not end in a newline one appended
  newline. The empty message does not end in a newline, and the line written for it is
  the header alone: the test \<^verbatim>\<open>len(s) > 0\<close> keeps the newline off.
\<close>

theorem output_empty_message_no_newline:
  "formatHeader [] (Now example_env) ''main.go'' 10 (level example_logger) =
     Inr ''2024-03-05T07:08:09 [DEBUG] main.go:10: ''
   \<and> Logger_output example_logger example_env 2 [] [] =
       Inr (example_logger\<lparr>buf := ''2024-03-05T07:08:09 [DEBUG] main.go:10: ''\<rparr>,
            None,
            [SinkWrite stdout_writer ''2024-03-05T07:08:09 [DEBUG] main.go:10: ''])"
proof -
  have l: "lock example_logger \<noteq> None" and o: "out example_logger = Some stdout_writer"
    and lv: "level example_logger = DebugLvl"
    by (simp_all add: example_logger_def)
  have w: "Write_err stdout_writer = None" by (simp add: stdout_writer_def)
  from output_run [OF l o, of example_env 2 "[]" "[]"]
  show ?thesis
    by (simp add: lv w example_caller example_header)
qed

lemma failing_header:
  "formatHeader [] (Now example_env) ''main.go'' 10 InfoLvl =
     Inr ''2024-03-05T07:08:09 [INFO] main.go:10: ''"
  by code_simp

lemma sentinel_header:
  "formatHeader [] (Now example_env) ''???'' 0 DebugLvl =
     Inr ''2024-03-05T07:08:09 [DEBUG] ???:0: ''"
  by code_simp

section \<open>Log calls on a Logger without a sink\<close>

text \<open>
  Claim C4, as the code has it. For every Logger whose sink is nil and whose mutex is
  allocated, each of the eight log methods, at every threshold, returns without a panic
  and leaves the trace as it was: nothing is written to a sink or to standard error. The
  methods have value receivers, so the caller's Logger is unchanged as well.
\<close>

theorem log_call_without_sink:
  assumes "lock l \<noteq> None" and "out l = None"
  shows "call m l e s tr = Inr tr"
  using assms by (rule call_no_sink)

text \<open>
  A Logger built by \<^verbatim>\<open>New\<close> with a nil sink: \<^verbatim>\<open>Error\<close> on it changes nothing.
\<close>

theorem log_call_without_sink_witness:
  "lock (fst (New accepting_NewClient WarnLvl None [] [])) \<noteq> None
   \<and> out (fst (New accepting_NewClient WarnLvl None [] [])) = None
   \<and> call MError (fst (New accepting_NewClient WarnLvl None [] [])) example_env ''boom''
        [StderrWrite ''earlier''] = Inr [StderrWrite ''earlier'']"
proof -
  have l: "lock (fst (New accepting_NewClient WarnLvl None [] [])) \<noteq> None"
    and o: "out (fst (New accepting_NewClient WarnLvl None [] [])) = None"
    by (simp_all add: New_def)
  from log_call_without_sink [OF l o, of MError example_env "''boom''" "[StderrWrite ''earlier'']"] l o
  show ?thesis by (simp del: call.simps)
qed

text \<open>
  Claim C4 as stated covers every Logger whose sink is nil. The zero value
  \<^verbatim>\<open>Logger{}\<close>, which \<^verbatim>\<open>LogToFile\<close> returns beside its error, has a nil sink and a nil
  mutex: a log call on it panics in \<^verbatim>\<open>l.lock.Lock()\<close> before the sink is looked at.
\<close>

theorem zero_Logger_log_call_panics:
  "fst (LogToFile (\<lambda>path. Inl ''permission denied'') accepting_NewClient InfoLvl
          ''/var/log/app.log'' [] []) = zero_Logger
   \<and> out zero_Logger = None
   \<and> call MInfo zero_Logger example_env ''started'' [] = Inl NilDereference"
  by (simp add: LogToFile_def zero_Logger_def Info_def locked_None)

section \<open>SetLevel and GetLevel\<close>

text \<open>
  Claim C10, as the code has it. For every Logger whose mutex is allocated and every
  level \<open>x\<close>, named or not, \<^verbatim>\<open>SetLevel(x)\<close> followed by \<^verbatim>\<open>GetLevel\<close> returns \<open>x\<close>, and
  \<^verbatim>\<open>SetLevel\<close> changes no field but the level.
\<close>

theorem SetLevel_then_GetLevel:
  assumes "lock l \<noteq> None"
  shows "and_then (SetLevel l x) GetLevel = Inr x
   \<and> (\<exists>l'. SetLevel l x = Inr l' \<and> level l' = x \<and> out l' = out l \<and> sentry l' = sentry l
         \<and> calldepth l' = calldepth l \<and> buf l' = buf l \<and> lock l' = lock l)"
  using assms by (simp add: SetLevel_def GetLevel_def locked_Some and_then_def)

text \<open>
  Setting the unnamed level VERBOSE on the example Logger and reading it back.
\<close>

theorem SetLevel_then_GetLevel_witness:
  "lock example_logger \<noteq> None
   \<and> and_then (SetLevel example_logger ''VERBOSE'') GetLevel = Inr ''VERBOSE''
   \<and> SetLevel example_logger ''VERBOSE'' = Inr (example_logger\<lparr>level := ''VERBOSE''\<rparr>)"
proof -
  have l: "lock example_logger \<noteq> None" by (simp add: example_logger_def)
  from SetLevel_then_GetLevel [OF l, of "''VERBOSE''"] l show ?thesis
    by (auto simp: example_logger_def)
qed

text \<open>
  Claim C10 as stated covers every Logger. On the zero value \<^verbatim>\<open>Logger{}\<close> the mutex is
  nil and \<^verbatim>\<open>SetLevel\<close> panics in \<^verbatim>\<open>l.lock.Lock()\<close>: no level is set and none is returned.
\<close>

theorem zero_Logger_SetLevel_panics:
  "SetLevel zero_Logger WarnLvl = Inl NilDereference
   \<and> and_then (SetLevel zero_Logger WarnLvl) GetLevel = Inl NilDereference"
  by (simp add: SetLevel_def zero_Logger_def locked_None and_then_def)

section \<open>SetSentry\<close>

text \<open>
  Claim C6, as the code has it. For every Logger whose mutex is allocated: when
  \<^verbatim>\<open>raven.NewClient\<close> fails, \<^verbatim>\<open>SetSentry\<close> returns its error, the Logger is unchanged (the
  client it had stays installed) and no client is closed; when it succeeds, the client
  the Logger had, if any, is closed, and the new client is installed.
\<close>

theorem SetSentry_effect:
  assumes "lock l \<noteq> None"
  shows "(NewClient d t = Inl err \<longrightarrow> SetSentry NewClient l d t tr = Inr (l, Some err, tr))
   \<and> (NewClient d t = Inr c \<longrightarrow>
        SetSentry NewClient l d t tr =
          Inr (l\<lparr>sentry := Some c\<rparr>, None,
               tr @ (case sentry l of None \<Rightarrow> [] | Some old \<Rightarrow> [SentryClose old])))"
  using assms
  by (auto simp: SetSentry_def locked_Some raven_Close_def and_then_def split: option.splits)

text \<open>
  On the example Logger: a refused endpoint leaves it as it was, an accepted one closes
  the client it had and installs the new one.
\<close>

theorem SetSentry_effect_witness:
  "lock example_logger \<noteq> None
   \<and> SetSentry refusing_NewClient example_logger ''not a dsn'' [] [] =
       Inr (example_logger, Some ''raven: dsn missing public key and/or password'', [])
   \<and> SetSentry accepting_NewClient example_logger ''https://key@sentry.example/2'' [] [] =
       Inr (example_logger\<lparr>sentry := Some other_client\<rparr>, None, [SentryClose example_client])"
proof -
  have l: "lock example_logger \<noteq> None" and s: "sentry example_logger = Some example_client"
    by (simp_all add: example_logger_def)
  have r: "refusing_NewClient ''not a dsn'' [] = Inl ''raven: dsn missing public key and/or password''"
    by (simp add: refusing_NewClient_def)
  have a: "accepting_NewClient ''https://key@sentry.example/2'' [] = Inr other_client"
    by (simp add: accepting_NewClient_def other_client_def)
  from SetSentry_effect [OF l, of refusing_NewClient "''not a dsn''" "[]" _ "[]" other_client]
       SetSentry_effect [OF l, of accepting_NewClient "''https://key@sentry.example/2''" "[]" "[]" "[]" other_client]
  show ?thesis
    by (simp add: l s r a)
qed

text \<open>
  Claim C6 as stated covers every Logger. On the zero value \<^verbatim>\<open>Logger{}\<close> the mutex is
  nil and \<^verbatim>\<open>SetSentry\<close> panics in \<^verbatim>\<open>l.lock.Lock()\<close>, before \<^verbatim>\<open>raven.NewClient\<close> is
  called: the construction error is not returned.
\<close>

theorem zero_Logger_SetSentry_panics:
  "SetSentry refusing_NewClient zero_Logger ''not a dsn'' [] [] = Inl NilDereference"
  by (simp add: SetSentry_def zero_Logger_def locked_None)

section \<open>Write errors\<close>

text \<open>
  Claim C7. A log call writes to the sink exactly when the mutex is allocated, the sink
  is set and the threshold admits the method's severity (\<open>call_reaches_sink_iff\<close>). In
  every such call whose \<^verbatim>\<open>Write\<close> returns an error, the method returns normally, its
  result carrying no error, and after the line the only further event is one write to
  standard error of \<^verbatim>\<open>time.Now().String()\<close>, a space and the error text.
\<close>

theorem write_error_reported_not_propagated:
  assumes "lock l \<noteq> None" and "out l = Some w" and "Level_includes (level l) (severity m)"
    and "Write_err w = Some msg"
  shows "\<exists>hdr. formatHeader [] (Now e) (fst (caller_location e (calldepth l + 2)))
                 (snd (caller_location e (calldepth l + 2))) (level l) = Inr hdr
     \<and> call m l e s tr =
         Inr (tr @ [SinkWrite w (hdr @ s @ (if s \<noteq> [] \<and> last s \<noteq> CHR 0x0A then [CHR 0x0A] else [])),
                    StderrWrite (Now_String e @ '' '' @ msg)])"
  using log_run [OF assms(1,2), of e s tr] assms(4)
  by (simp add: call_admitted [OF assms(1-3)])

text \<open>
  \<^verbatim>\<open>Warnf\<close> on a Logger whose file is on a full disk.
\<close>

theorem write_error_reported_not_propagated_witness:
  "lock failing_logger \<noteq> None \<and> out failing_logger = Some full_disk
   \<and> Level_includes (level failing_logger) (severity MWarnf)
   \<and> Write_err full_disk = Some ''no space left on device''
   \<and> call MWarnf failing_logger example_env ''cache miss'' [] =
       Inr [SinkWrite full_disk (''2024-03-05T07:08:09 [INFO] main.go:10: cache miss'' @ [CHR 0x0A]),
            StderrWrite ''2024-03-05 07:08:09 +0000 UTC no space left on device'']"
proof -
  have l: "lock failing_logger \<noteq> None" and o: "out failing_logger = Some full_disk"
    and lv: "level failing_logger = InfoLvl" and cd: "calldepth failing_logger = 0"
    by (simp_all add: failing_logger_def)
  have i: "Level_includes (level failing_logger) (severity MWarnf)"
    by (simp add: lv Level_includes_def Lvl_defs)
  have w: "Write_err full_disk = Some ''no space left on device''"
    by (simp add: full_disk_def)
  have ns: "Now_String example_env = ''2024-03-05 07:08:09 +0000 UTC''"
    by (simp add: example_env_def)
  from write_error_reported_not_propagated [OF l o i w, of example_env "''cache miss''" "[]"]
       l o i w
  show ?thesis
    by (simp add: lv cd ns example_caller failing_header del: call.simps severity.simps)
qed

section \<open>Caller resolution\<close>

text \<open>
  Claim C8. In every admitted log call for which \<^verbatim>\<open>runtime.Caller\<close> fails, the header
  is formatted with the file \<^verbatim>\<open>???\<close> and the line 0, the line is written to the sink as
  in any other call, and the method returns normally; standard error is written only if
  the sink's \<^verbatim>\<open>Write\<close> itself fails.
\<close>

theorem caller_failure_uses_sentinel:
  assumes "lock l \<noteq> None" and "out l = Some w" and "Level_includes (level l) (severity m)"
    and "Caller e (calldepth l + 2) = None"
  shows "\<exists>hdr. formatHeader [] (Now e) ''???'' 0 (level l) = Inr hdr
     \<and> call m l e s tr =
         Inr (tr @ [SinkWrite w (hdr @ s @ (if s \<noteq> [] \<and> last s \<noteq> CHR 0x0A then [CHR 0x0A] else []))]
                 @ (case Write_err w of None \<Rightarrow> []
                    | Some msg \<Rightarrow> [StderrWrite (Now_String e @ '' '' @ msg)]))"
  using log_run [OF assms(1,2), of e s tr] assms(4)
  by (simp add: call_admitted [OF assms(1-3)] caller_location_def)

text \<open>
  \<^verbatim>\<open>Info\<close> through five wrappers, where no frame resolves.
\<close>

theorem caller_failure_uses_sentinel_witness:
  "lock wrapped_logger \<noteq> None \<and> out wrapped_logger = Some stdout_writer
   \<and> Level_includes (level wrapped_logger) (severity MInfo)
   \<and> Caller example_env (calldepth wrapped_logger + 2) = None
   \<and> call MInfo wrapped_logger example_env ''listening on :8080'' [] =
       Inr [SinkWrite stdout_writer
              (''2024-03-05T07:08:09 [DEBUG] ???:0: listening on :8080'' @ [CHR 0x0A])]"
proof -
  have l: "lock wrapped_logger \<noteq> None" and o: "out wrapped_logger = Some stdout_writer"
    and lv: "level wrapped_logger = DebugLvl"
    by (simp_all add: wrapped_logger_def example_logger_def)
  have i: "Level_includes (level wrapped_logger) (severity MInfo)"
    by (simp add: lv Level_includes_def Lvl_defs)
  have c: "Caller example_env (calldepth wrapped_logger + 2) = None"
    by (simp add: wrapped_logger_def example_logger_def example_env_def)
  have w: "Write_err stdout_writer = None" by (simp add: stdout_writer_def)
  from caller_failure_uses_sentinel [OF l o i c, of "''listening on :8080''" "[]"] l o i c
  show ?thesis
    by (simp add: lv w sentinel_header del: call.simps)
qed

section \<open>Forwarding to the error tracker\<close>

text \<open>
  No log method calls the raven client: whatever a log call adds to the trace, the
  events on a raven client are those that were there before.
\<close>

lemma log_calls_leave_sentry_alone:
  "call m l e s tr = Inr tr' \<Longrightarrow> filter on_sentry tr' = filter on_sentry tr"
proof (cases "lock l = None")
  case True
  assume "call m l e s tr = Inr tr'"
  with call_nil_lock [OF True, of m e s tr] show ?thesis by simp
next
  case lk: False
  assume c: "call m l e s tr = Inr tr'"
  show ?thesis
  proof (cases "out l")
    case None
    with call_no_sink [OF lk None, of m e s tr] c show ?thesis by simp
  next
    case (Some w)
    show ?thesis
    proof (cases "Level_includes (level l) (severity m)")
      case True
      from log_run [OF lk Some, of e s tr] c call_admitted [OF lk Some True, of e s tr]
      show ?thesis by (auto split: option.splits)
    next
      case False
      with lk Some have "call m l e s tr = Inr tr"
        by (cases m)
           (simp_all add: Debugf_def Debug_def Infof_def Info_def Warnf_def Warn_def Errorf_def
              Error_def locked_Some)
      with c show ?thesis by simp
    qed
  qed
qed

text \<open>
  Claim C1 says that \<^verbatim>\<open>Warn\<close>, \<^verbatim>\<open>Warnf\<close>, \<^verbatim>\<open>Error\<close> and \<^verbatim>\<open>Errorf\<close> forward the message
  to a configured raven client once per admitted call, as their doc comments do. On the
  example Logger, which has a client, a sink and the threshold DEBUG, each of the four
  writes its line to the sink and does nothing else: nothing reaches the client.
\<close>

theorem Warn_and_Error_forward_nothing:
  "sentry example_logger = Some example_client
   \<and> call MWarn example_logger example_env ''disk almost full'' [] =
       Inr [SinkWrite stdout_writer (''2024-03-05T07:08:09 [DEBUG] main.go:10: disk almost full'' @ [CHR 0x0A])]
   \<and> call MWarnf example_logger example_env ''disk almost full'' [] =
       Inr [SinkWrite stdout_writer (''2024-03-05T07:08:09 [DEBUG] main.go:10: disk almost full'' @ [CHR 0x0A])]
   \<and> call MError example_logger example_env ''disk almost full'' [] =
       Inr [SinkWrite stdout_writer (''2024-03-05T07:08:09 [DEBUG] main.go:10: disk almost full'' @ [CHR 0x0A])]
   \<and> call MErrorf example_logger example_env ''disk almost full'' [] =
       Inr [SinkWrite stdout_writer (''2024-03-05T07:08:09 [DEBUG] main.go:10: disk almost full'' @ [CHR 0x0A])]"
proof -
  have l: "lock example_logger \<noteq> None" and o: "out example_logger = Some stdout_writer"
    and lv: "level example_logger = DebugLvl" and cd: "calldepth example_logger = 0"
    and se: "sentry example_logger = Some example_client"
    by (simp_all add: example_logger_def)
  have i: "Level_includes (level example_logger) (severity m)" for m
    by (simp add: lv Level_includes_def Lvl_defs)
  have w: "Write_err stdout_writer = None" by (simp add: stdout_writer_def)
  from log_run [OF l o, of example_env "''disk almost full''" "[]"]
  have "call m example_logger example_env ''disk almost full'' [] =
       Inr [SinkWrite stdout_writer (''2024-03-05T07:08:09 [DEBUG] main.go:10: disk almost full'' @ [CHR 0x0A])]" for m
    by (simp add: call_admitted [OF l o i] lv cd w example_caller example_header
          del: call.simps)
  with se show ?thesis by (simp del: call.simps)
qed

section \<open>Close\<close>

text \<open>
  \<^verbatim>\<open>Close\<close> on a Logger with a raven client closes the client once, then closes the
  sink when the sink is an \<^verbatim>\<open>io.Closer\<close>, and does not panic.
\<close>

theorem Close_with_client:
  assumes "sentry l = Some c"
  shows "Close l tr =
           Inr (tr @ [SentryClose c]
                   @ (case out l of None \<Rightarrow> []
                      | Some w \<Rightarrow> if is_Closer w then [SinkClose w] else []))"
  using assms by (auto simp: Close_def raven_Close_def and_then_def split: option.splits)

text \<open>
  The example Logger writing to a file, and writing to standard output.
\<close>

theorem Close_with_client_witness:
  "sentry (example_logger\<lparr>out := Some log_file\<rparr>) = Some example_client
   \<and> Close (example_logger\<lparr>out := Some log_file\<rparr>) [] = Inr [SentryClose example_client, SinkClose log_file]
   \<and> Close example_logger [] = Inr [SentryClose example_client]"
proof -
  have s: "sentry (example_logger\<lparr>out := Some log_file\<rparr>) = Some example_client"
    and s': "sentry example_logger = Some example_client"
    by (simp_all add: example_logger_def)
  from Close_with_client [OF s, of "[]"] Close_with_client [OF s', of "[]"] s
  show ?thesis
    by (simp add: example_logger_def log_file_def stdout_writer_def)
qed

text \<open>
  Claim C9 says that \<^verbatim>\<open>Close\<close> does not panic when no raven client was ever
  configured. A Logger built by \<^verbatim>\<open>New\<close> with the empty endpoint has a nil client, and
  \<^verbatim>\<open>Close\<close> calls \<^verbatim>\<open>l.sentry.Close()\<close> on it without the nil test \<^verbatim>\<open>SetSentry\<close> makes: the
  call dereferences nil, and the sink is never closed.
\<close>

theorem Close_without_sentry_panics:
  "fst (New accepting_NewClient InfoLvl (Some log_file) [] []) =
     \<lparr>level = InfoLvl, out = Some log_file, sentry = None, calldepth = 0, buf = [],
      lock = Some Mutex\<rparr>
   \<and> Close (fst (New accepting_NewClient InfoLvl (Some log_file) [] [])) [] = Inl NilDereference"
  by (simp add: New_def Close_def raven_Close_def and_then_def)

section \<open>The threshold in the written line\<close>

text \<open>
  A log call whose severity the threshold does not admit has no effect, whatever the
  sink is.
\<close>

theorem log_call_below_threshold:
  assumes "lock l \<noteq> None" and "\<not> Level_includes (level l) (severity m)"
  shows "call m l e s tr = Inr tr"
  using assms by (rule call_not_admitted)

text \<open>
  With the threshold WARN, \<^verbatim>\<open>Info\<close> and \<^verbatim>\<open>Debugf\<close> write nothing.
\<close>

theorem log_call_below_threshold_witness:
  "lock (example_logger\<lparr>level := WarnLvl\<rparr>) \<noteq> None
   \<and> \<not> Level_includes (level (example_logger\<lparr>level := WarnLvl\<rparr>)) (severity MInfo)
   \<and> \<not> Level_includes (level (example_logger\<lparr>level := WarnLvl\<rparr>)) (severity MDebugf)
   \<and> call MInfo (example_logger\<lparr>level := WarnLvl\<rparr>) example_env ''started'' [] = Inr []
   \<and> call MDebugf (example_logger\<lparr>level := WarnLvl\<rparr>) example_env ''started'' [] = Inr []"
proof -
  have l: "lock (example_logger\<lparr>level := WarnLvl\<rparr>) \<noteq> None"
    by (simp add: example_logger_def)
  have i: "\<not> Level_includes (level (example_logger\<lparr>level := WarnLvl\<rparr>)) (severity MInfo)"
    and d: "\<not> Level_includes (level (example_logger\<lparr>level := WarnLvl\<rparr>)) (severity MDebugf)"
    by (simp_all add: Level_includes_def Lvl_defs)
  from log_call_below_threshold [OF l i, of example_env "''started''" "[]"]
       log_call_below_threshold [OF l d, of example_env "''started''" "[]"] l i d
  show ?thesis by (simp del: call.simps severity.simps)
qed

text \<open>
  The level \<^verbatim>\<open>output\<close> passes to \<^verbatim>\<open>formatHeader\<close> is \<^verbatim>\<open>l.level\<close>, the threshold of the
  Logger, not the severity of the method: two admitted calls with the same message write
  the same line, whose header is formatted with the threshold.
\<close>

theorem header_carries_threshold:
  assumes "lock l \<noteq> None" and "out l = Some w"
    and "Level_includes (level l) (severity m)" and "Level_includes (level l) (severity m')"
  shows "call m l e s tr = call m' l e s tr
     \<and> (\<exists>hdr line rest. formatHeader [] (Now e) (fst (caller_location e (calldepth l + 2)))
              (snd (caller_location e (calldepth l + 2))) (level l) = Inr hdr
          \<and> call m l e s tr = Inr (tr @ SinkWrite w (hdr @ line) # rest))"
  using log_run [OF assms(1,2), of e s tr]
  by (auto simp: call_admitted [OF assms(1,2,3)] call_admitted [OF assms(1,2,4)])

text \<open>
  With the threshold DEBUG, \<^verbatim>\<open>Error\<close> writes the line \<^verbatim>\<open>Debug\<close> writes.
\<close>

theorem header_carries_threshold_witness:
  "lock example_logger \<noteq> None \<and> out example_logger = Some stdout_writer
   \<and> Level_includes (level example_logger) (severity MError)
   \<and> Level_includes (level example_logger) (severity MDebug)
   \<and> call MError example_logger example_env ''db unreachable'' []
       = call MDebug example_logger example_env ''db unreachable'' []"
proof -
  have l: "lock example_logger \<noteq> None" and o: "out example_logger = Some stdout_writer"
    and lv: "level example_logger = DebugLvl"
    by (simp_all add: example_logger_def)
  have i: "Level_includes (level example_logger) (severity m)" for m
    by (simp add: lv Level_includes_def Lvl_defs)
  from header_carries_threshold [OF l o i i, of MError example_env "''db unreachable''" "[]" MDebug]
       l o i [of MError] i [of MDebug]
  show ?thesis by (simp del: call.simps severity.simps)
qed

end
